theory Spec2Isabelle
  imports Complex_Main "HOL-Library.Word" "HOL-Library.Sublist"
begin

unbundle bit_operations_syntax

section \<open>Time\<close>

text \<open>
  A \<^verbatim>\<open>time.Time\<close> is modelled by the instant it denotes, in nanoseconds on one
  timeline; a \<^verbatim>\<open>time.Duration\<close> is a signed 64-bit count of nanoseconds. Every
  call of \<^verbatim>\<open>time.Now()\<close> in the source is an explicit argument of the model, in
  the order the source reads the clock.
\<close>

type_synonym time = int
type_synonym duration = int

definition maxDuration :: duration where
  "maxDuration = 2 ^ 63 - 1"

definition minDuration :: duration where
  "minDuration = - (2 ^ 63)"

text \<open>\<^verbatim>\<open>t.Sub(u)\<close>: the difference, saturated at the ends of the Duration range.\<close>

definition Sub :: "time \<Rightarrow> time \<Rightarrow> duration" where
  "Sub t u = (if t - u > maxDuration then maxDuration
              else if t - u < minDuration then minDuration else t - u)"

text \<open>\<^verbatim>\<open>time.Since(t)\<close> is \<^verbatim>\<open>time.Now().Sub(t)\<close>.\<close>

definition Since :: "time \<Rightarrow> time \<Rightarrow> duration" where
  "Since now t = Sub now t"

text \<open>\<^verbatim>\<open>d.Hours()\<close>: whole hours plus the remaining nanoseconds over an hour.\<close>

definition Hours :: "duration \<Rightarrow> real" where
  "Hours d = real_of_int d / 3600000000000"

section \<open>The pet state (internal/pet/state.go)\<close>

text \<open>
  The vitals and system metrics are \<^verbatim>\<open>float64\<close> in the source. They are modelled
  by the real numbers they denote: the sampler that feeds \<^verbatim>\<open>ApplySystemStats\<close>
  guards every division, so the values are finite numbers, and arithmetic is taken exact.
  The mutex is not modelled: every mutator holds the write lock for its whole body, so
  the calls are serialised and each is a function from state to state.
\<close>

record PetState =
  Name :: string
  SpeciesID :: string
  Hunger :: real
  Happiness :: real
  Energy :: real
  Cleanliness :: real
  Bond :: real
  BornAt :: time
  LastInteraction :: time
  LastFed :: time
  IsAlive :: bool
  CPUPercent :: real
  MemPercent :: real
  DiskPercent :: real
  TempC :: real
  UptimeDays :: real

text \<open>A Snapshot has the fields of the state and the two derived ones.\<close>

record Snapshot = PetState +
  Mood :: string
  AgeDays :: real

definition clamp :: "real \<Rightarrow> real" where
  "clamp v = (if v < 0 then 0 else if v > 100 then 100 else v)"

definition NewPetState :: "string \<Rightarrow> string \<Rightarrow> time \<Rightarrow> PetState" where
  "NewPetState name speciesID now =
     \<lparr>Name = name, SpeciesID = speciesID,
      Hunger = 20, Happiness = 80, Energy = 80, Cleanliness = 80, Bond = 10,
      BornAt = now, LastInteraction = now, LastFed = now, IsAlive = True,
      CPUPercent = 0, MemPercent = 0, DiskPercent = 0, TempC = 0, UptimeDays = 0\<rparr>"

text \<open>The zero value \<^verbatim>\<open>PetState{}\<close>; the zero \<^verbatim>\<open>time.Time\<close> is January 1, year 1,
  which is 62135596800 seconds before the Unix epoch.\<close>

definition zeroTime :: time where
  "zeroTime = - 62135596800 * 1000000000"

definition zeroPetState :: PetState where
  "zeroPetState =
     \<lparr>Name = [], SpeciesID = [],
      Hunger = 0, Happiness = 0, Energy = 0, Cleanliness = 0, Bond = 0,
      BornAt = zeroTime, LastInteraction = zeroTime, LastFed = zeroTime, IsAlive = False,
      CPUPercent = 0, MemPercent = 0, DiskPercent = 0, TempC = 0, UptimeDays = 0\<rparr>"

subsection \<open>The mood (DetermineMood)\<close>

definition DetermineMood :: "Snapshot \<Rightarrow> string" where
  "DetermineMood s =
     (if \<not> IsAlive s then ''dead''
      else if MemPercent s > 90 then ''sick''
      else if TempC s > 70 then ''anxious''
      else if Energy s < 20 then ''sleepy''
      else if Hunger s > 70 then ''hungry''
      else if Happiness s < 30 then ''bored''
      else if Happiness s > 70 \<and> Hunger s < 40 \<and> Energy s > 40 then ''happy''
      else ''content'')"

text \<open>\<^verbatim>\<open>Snapshot()\<close> copies the fields, then computes the mood from the copy and the
  age from the clock (read at \<open>now\<close>).\<close>

definition Snapshot :: "time \<Rightarrow> PetState \<Rightarrow> Snapshot" where
  "Snapshot now s =
     (let snap = PetState.extend s \<lparr>Mood = [], AgeDays = 0\<rparr>;
          snap = snap\<lparr>Mood := DetermineMood snap\<rparr>
      in snap\<lparr>AgeDays := Hours (Since now (BornAt snap)) / 24\<rparr>)"

definition IsOnboarded :: "PetState \<Rightarrow> bool" where
  "IsOnboarded s = (Name s \<noteq> [] \<and> SpeciesID s \<noteq> [])"

subsection \<open>The mutators\<close>

definition SetIdentity :: "string \<Rightarrow> string \<Rightarrow> time \<Rightarrow> PetState \<Rightarrow> PetState" where
  "SetIdentity name speciesID now s =
     s\<lparr>Name := name, SpeciesID := speciesID,
       BornAt := now, LastInteraction := now, LastFed := now, IsAlive := True,
       Hunger := 20, Happiness := 80, Energy := 80, Cleanliness := 80, Bond := 10\<rparr>"

definition bumpBond :: "PetState \<Rightarrow> PetState" where
  "bumpBond s =
     (let gain = 2;
          gain = (if Bond s > 50 then 1 else gain);
          gain = (if Bond s > 80 then 1 / 2 else gain)
      in s\<lparr>Bond := clamp (Bond s + gain)\<rparr>)"

text \<open>\<^verbatim>\<open>Feed\<close> reads the clock twice: \<open>t1\<close> for LastFed, then \<open>t2\<close> for
  LastInteraction.\<close>

definition Feed :: "time \<Rightarrow> time \<Rightarrow> PetState \<Rightarrow> PetState" where
  "Feed t1 t2 s =
     bumpBond (s\<lparr>Hunger := clamp (Hunger s - 30),
                 Happiness := clamp (Happiness s + 5),
                 LastFed := t1, LastInteraction := t2\<rparr>)"

definition Play :: "time \<Rightarrow> PetState \<Rightarrow> PetState" where
  "Play now s =
     bumpBond (s\<lparr>Happiness := clamp (Happiness s + 20),
                 Energy := clamp (Energy s - 10),
                 Hunger := clamp (Hunger s + 5),
                 LastInteraction := now\<rparr>)"

definition Pet :: "time \<Rightarrow> PetState \<Rightarrow> PetState" where
  "Pet now s =
     bumpBond (s\<lparr>Happiness := clamp (Happiness s + 10), LastInteraction := now\<rparr>)"

definition TouchInteraction :: "time \<Rightarrow> PetState \<Rightarrow> PetState" where
  "TouchInteraction now s = bumpBond (s\<lparr>LastInteraction := now\<rparr>)"

definition ApplySystemStats ::
  "real \<Rightarrow> real \<Rightarrow> real \<Rightarrow> real \<Rightarrow> real \<Rightarrow> time \<Rightarrow> PetState \<Rightarrow> PetState" where
  "ApplySystemStats cpu mem disk tempC uptimeDays now s =
     (let s = s\<lparr>CPUPercent := cpu, MemPercent := mem, DiskPercent := disk,
                TempC := tempC, UptimeDays := uptimeDays\<rparr>;
          s = s\<lparr>Hunger := clamp cpu,
                Cleanliness := clamp (100 - disk),
                Energy := clamp (100 - uptimeDays * 14)\<rparr>;
          hoursSince = Hours (Since now (LastInteraction s));
          s = s\<lparr>Happiness := clamp (Happiness s - hoursSince * 0.1)\<rparr>;
          s = s\<lparr>Bond := clamp (Bond s - hoursSince * 0.05)\<rparr>
      in if Hunger s \<ge> 95 \<and> MemPercent s \<ge> 95 \<and> Energy s \<le> 5
         then s\<lparr>IsAlive := False\<rparr> else s)"

definition Kill :: "PetState \<Rightarrow> PetState" where
  "Kill s = s\<lparr>IsAlive := False\<rparr>"

definition Revive :: "time \<Rightarrow> PetState \<Rightarrow> PetState" where
  "Revive now s =
     s\<lparr>IsAlive := True, Hunger := 20, Happiness := 50, Energy := 50, Cleanliness := 50,
       Bond := clamp (Bond s * 0.5), LastInteraction := now\<rparr>"

text \<open>A call of one mutator, with its arguments and the clock readings it makes.\<close>

datatype mutator =
    CallFeed time time
  | CallPlay time
  | CallPet time
  | CallTouchInteraction time
  | CallApplySystemStats real real real real real time
  | CallKill
  | CallRevive time
  | CallSetIdentity string string time

fun call :: "mutator \<Rightarrow> PetState \<Rightarrow> PetState" where
  "call (CallFeed t1 t2) s = Feed t1 t2 s"
| "call (CallPlay t) s = Play t s"
| "call (CallPet t) s = Pet t s"
| "call (CallTouchInteraction t) s = TouchInteraction t s"
| "call (CallApplySystemStats cpu mem disk tempC up t) s = ApplySystemStats cpu mem disk tempC up t s"
| "call CallKill s = Kill s"
| "call (CallRevive t) s = Revive t s"
| "call (CallSetIdentity n sp t) s = SetIdentity n sp t s"

text \<open>The states after each call of a sequence, in order.\<close>

fun states_after :: "PetState \<Rightarrow> mutator list \<Rightarrow> PetState list" where
  "states_after s [] = []"
| "states_after s (m # ms) = call m s # states_after (call m s) ms"

definition in_range :: "real \<Rightarrow> bool" where
  "in_range v = (0 \<le> v \<and> v \<le> 100)"

definition vitals_in_range :: "PetState \<Rightarrow> bool" where
  "vitals_in_range s =
     (in_range (Hunger s) \<and> in_range (Happiness s) \<and> in_range (Energy s) \<and>
      in_range (Cleanliness s) \<and> in_range (Bond s))"

section \<open>The rate limiter and the tool-use loop (internal/brain/provider.go)\<close>

text \<open>
  Go's \<^verbatim>\<open>int\<close> is a machine word whose width depends on the platform (the project
  ships 32-bit and 64-bit ARM binaries), so it is a \<open>'w word\<close> read as a signed number;
  a \<^verbatim>\<open>time.Duration\<close> field is a signed 64-bit word.
\<close>

record ToolCall =
  tc_ID :: string
  tc_Name :: string
  tc_Input :: string

record ToolResult =
  tr_ID :: string
  tr_Content :: string
  tr_IsError :: bool

record Message =
  Role :: string
  Text :: string
  ToolCalls :: "ToolCall list"
  ToolResults :: "ToolResult list"

record Response =
  resp_Text :: string
  resp_ToolCalls :: "ToolCall list"
  resp_Done :: bool

text \<open>The records take the type \<open>'i\<close> of a Go \<^verbatim>\<open>int\<close>; the functions use them at
  \<open>'w word\<close>.\<close>

record 'i Executor =
  timeout :: "64 word"
  maxOutput :: 'i

record 'i Brain =
  maxTools :: 'i
  executor :: "'i Executor"
  window :: "time list"
  rateMax :: 'i
  rateDur :: "64 word"

text \<open>\<^verbatim>\<open>t.Add(d)\<close> and \<^verbatim>\<open>t.After(u)\<close> on instants.\<close>

definition Add :: "time \<Rightarrow> 64 word \<Rightarrow> time" where
  "Add t d = t + sint d"

definition After :: "time \<Rightarrow> time \<Rightarrow> bool" where
  "After t u = (t > u)"

text \<open>
  \<^verbatim>\<open>rateAllow\<close>, with the clock reading \<open>now\<close>. The source filters the window in
  place (\<^verbatim>\<open>valid := b.window[:0]\<close>, appending the kept entries while reading ahead
  of the writes), which computes the filtered list.
\<close>

definition rateAllow :: "time \<Rightarrow> 'w::len word Brain \<Rightarrow> bool \<times> 'w word Brain" where
  "rateAllow now b =
     (let cutoff = Add now (- rateDur b);
          valid = filter (\<lambda>t. After t cutoff) (window b);
          b = b\<lparr>window := valid\<rparr>
      in if int (length (window b)) \<ge> sint (rateMax b) then (False, b)
         else (True, b\<lparr>window := window b @ [now]\<rparr>))"

text \<open>A sequence of \<^verbatim>\<open>rateAllow\<close> calls at the given clock readings: the answers in
  order, and the limiter afterwards.\<close>

fun rateAllow_calls :: "'w::len word Brain \<Rightarrow> time list \<Rightarrow> bool list \<times> 'w word Brain" where
  "rateAllow_calls b [] = ([], b)"
| "rateAllow_calls b (t # ts) =
     (let (ok, b1) = rateAllow t b;
          (oks, b2) = rateAllow_calls b1 ts
      in (ok # oks, b2))"

text \<open>The clock readings of the calls that returned true.\<close>

definition accepted :: "'w::len word Brain \<Rightarrow> time list \<Rightarrow> time list" where
  "accepted b ts = map fst (filter snd (zip ts (fst (rateAllow_calls b ts))))"

text \<open>The accepted calls inside the trailing interval of length \<open>d\<close> that ends at
  \<open>T\<close>, that is with \<open>T - d < t \<and> t \<le> T\<close>.\<close>

definition in_trailing :: "int \<Rightarrow> time \<Rightarrow> time \<Rightarrow> bool" where
  "in_trailing d T t = (T - d < t \<and> t \<le> T)"

section \<open>The command sandbox (package shell)\<close>

definition blockedPatterns :: "string list" where
  "blockedPatterns =
     [''rm -rf /'', ''rm -rf /*'', ''mkfs'', ''dd if='', '':(){'', ''chmod -R 777'',
      ''wget'', ''curl'', ''> /dev/sd'', ''shutdown'', ''reboot'', ''halt'', ''init 0'',
      ''init 6'', ''passwd'', ''adduser'', ''useradd'', ''userdel'', ''visudo'',
      ''iptables'', ''nft '', ''systemctl disable'', ''systemctl mask'']"

text \<open>
  \<^verbatim>\<open>strings.ToLower\<close> on the bytes of a string: the letters A to Z go to a to z. The
  bytes of a character outside ASCII are left as they are (the Unicode case tables are not
  part of the repository); the deny-list itself is ASCII.
\<close>

definition lower_byte :: "char \<Rightarrow> char" where
  "lower_byte c =
     (if 65 \<le> (of_char c :: nat) \<and> (of_char c :: nat) \<le> 90
      then char_of ((of_char c :: nat) + 32) else c)"

definition ToLower :: "string \<Rightarrow> string" where
  "ToLower s = map lower_byte s"

text \<open>\<^verbatim>\<open>strings.Contains(s, sub)\<close>: \<open>sub\<close> starts at some position of \<open>s\<close>.\<close>

fun Contains :: "string \<Rightarrow> string \<Rightarrow> bool" where
  "Contains [] sub = (sub = [])"
| "Contains (c # s) sub = (prefix sub (c # s) \<or> Contains s sub)"

text \<open>The loop of \<^verbatim>\<open>checkBlocked\<close> over the patterns, and the function.\<close>

fun checkPatterns :: "string \<Rightarrow> string list \<Rightarrow> string" where
  "checkPatterns lower [] = []"
| "checkPatterns lower (pattern # ps) =
     (if Contains lower (ToLower pattern) then pattern else checkPatterns lower ps)"

definition checkBlocked :: "string \<Rightarrow> string" where
  "checkBlocked command = (let lower = ToLower command in checkPatterns lower blockedPatterns)"

text \<open>
  What the operating system answers to \<^verbatim>\<open>exec.CommandContext(ctx, "sh", "-c",
  command).CombinedOutput()\<close>: the captured output, whether the context's deadline has
  passed, and the error of the run if any. The subprocess is the only effect of
  \<^verbatim>\<open>Run\<close>; it is a function \<open>spawn\<close> on the state \<open>'s\<close> of the world.
\<close>

record proc =
  proc_out :: string
  proc_deadline :: bool
  proc_err :: "string option"

datatype run_error = BlockedPattern string | TimedOut "64 word" | CommandFailed string

text \<open>A call returns, or panics (\<^verbatim>\<open>result[:e.maxOutput]\<close> with a negative bound).\<close>

datatype 'a outcome = Return 'a | Panic

definition truncation_marker :: string where
  "truncation_marker = CHR 0x0A # ''... [output truncated]''"

definition Run ::
  "('s \<Rightarrow> 64 word \<Rightarrow> string \<Rightarrow> proc \<times> 's) \<Rightarrow> 'w::len word Executor \<Rightarrow> string \<Rightarrow> 's
     \<Rightarrow> (string \<times> run_error option) outcome \<times> 's" where
  "Run spawn e command w =
     (let blocked = checkBlocked command in
      if blocked \<noteq> [] then (Return ([], Some (BlockedPattern blocked)), w)
      else
        (let (p, w1) = spawn w (timeout e) command;
             result = proc_out p
         in if int (length result) > sint (maxOutput e) \<and> sint (maxOutput e) < 0
            then (Panic, w1)
            else
              (let result = (if int (length result) > sint (maxOutput e)
                             then take (nat (sint (maxOutput e))) result @ truncation_marker
                             else result)
               in if proc_deadline p then (Return (result, Some (TimedOut (timeout e))), w1)
                  else (case proc_err p of
                          Some err \<Rightarrow> (Return (result, Some (CommandFailed err)), w1)
                        | None \<Rightarrow> (Return (result, None), w1)))))"

section \<open>The tool-use loop (Brain.Ask)\<close>

text \<open>
  What \<^verbatim>\<open>Ask\<close> uses from outside the repository, as functions on the state \<open>'s\<close> of
  the world: the provider behind the \<^verbatim>\<open>Provider\<close> interface (\<open>Send\<close> answers an error or
  a response; both implementations of the repository return a response whenever the error
  is nil), the subprocess of the sandbox (\<open>Spawn\<close>), \<^verbatim>\<open>json.Unmarshal\<close> of a tool input
  into its \<^verbatim>\<open>command\<close> field, the text of the system prompt rendered from the pet and
  the monitor, and the renderings \<^verbatim>\<open>%q\<close> of a string and \<^verbatim>\<open>%s\<close> of a duration.
\<close>

record 's Env =
  Send :: "'s \<Rightarrow> string \<Rightarrow> Message list \<Rightarrow> (string + Response) \<times> 's"
  Spawn :: "'s \<Rightarrow> 64 word \<Rightarrow> string \<Rightarrow> proc \<times> 's"
  UnmarshalCommand :: "string \<Rightarrow> string + string"
  buildSystemPrompt :: "'s \<Rightarrow> string"
  Quote :: "string \<Rightarrow> string"
  DurationString :: "64 word \<Rightarrow> string"

text \<open>The text of an error of \<^verbatim>\<open>Run\<close> (\<^verbatim>\<open>%v\<close>).\<close>

definition errorText :: "'s Env \<Rightarrow> run_error \<Rightarrow> string" where
  "errorText env e =
     (case e of
        BlockedPattern blocked \<Rightarrow> ''blocked command pattern: '' @ Quote env blocked
      | TimedOut d \<Rightarrow> ''command timed out after '' @ DurationString env d
      | CommandFailed err \<Rightarrow> ''command failed: '' @ err)"

definition executeTool ::
  "'s Env \<Rightarrow> 'w::len word Executor \<Rightarrow> string \<Rightarrow> string \<Rightarrow> 's \<Rightarrow> (string \<times> bool) outcome \<times> 's" where
  "executeTool env ex name input w =
     (if name = ''run_shell'' then
        (case UnmarshalCommand env input of
           Inl err \<Rightarrow> (Return (''invalid input: '' @ err, True), w)
         | Inr command \<Rightarrow>
             (case Run (Spawn env) ex command w of
                (Panic, w1) \<Rightarrow> (Panic, w1)
              | (Return (output, Some err), w1) \<Rightarrow>
                  (Return (''Error: '' @ errorText env err @ [CHR 0x0A] @ ''Output: '' @ output,
                           True), w1)
              | (Return (output, None), w1) \<Rightarrow> (Return (output, False), w1)))
      else (Return (''unknown tool: '' @ name, True), w))"

text \<open>What an observer of \<^verbatim>\<open>Ask\<close> sees, in order: each call of the provider with the
  history it was given and its answer, and each tool execution with its result.\<close>

datatype event = Sent "Message list" "string + Response" | Executed ToolCall ToolResult

text \<open>The inner loop over the tool calls of one response: \<open>results\<close> and \<open>trace\<close> are
  the results and the events so far.\<close>

fun executeTools ::
  "'s Env \<Rightarrow> 'w::len word Executor \<Rightarrow> ToolCall list \<Rightarrow> ToolResult list \<Rightarrow> event list \<Rightarrow> 's
     \<Rightarrow> ToolResult list outcome \<times> event list \<times> 's" where
  "executeTools env ex [] results trace w = (Return results, trace, w)"
| "executeTools env ex (tc # tcs) results trace w =
     (case executeTool env ex (tc_Name tc) (tc_Input tc) w of
        (Panic, w1) \<Rightarrow> (Panic, trace, w1)
      | (Return (content, isError), w1) \<Rightarrow>
          (let r = \<lparr>tr_ID = tc_ID tc, tr_Content = content, tr_IsError = isError\<rparr>
           in executeTools env ex tcs (results @ [r]) (trace @ [Executed tc r]) w1))"

datatype ask_error = APIError string

definition rate_limited_text :: string where
  "rate_limited_text =
     ''I need a moment to catch my breath... too many messages! Try again shortly.''"

definition carried_away_text :: string where
  "carried_away_text =
     ''I got a bit carried away investigating... let me summarize what I found so far.''"

text \<open>
  The loop \<^verbatim>\<open>for i := 0; i <= b.maxTools; i++\<close> from its counter \<open>i\<close> on. The counter
  is a machine word, compared as a signed number, and \<open>i + 1\<close> wraps; the loop need not
  end, so the function is partial: \<open>None\<close> is a run that never returns.
\<close>

partial_function (option) ask_loop ::
  "'s Env \<Rightarrow> 'w::len word Brain \<Rightarrow> string \<Rightarrow> 'w word \<Rightarrow> Message list \<Rightarrow> event list \<Rightarrow> 's
     \<Rightarrow> ((string \<times> ask_error option) outcome \<times> event list \<times> 's) option" where
  "ask_loop env b systemPrompt i history trace w =
     (if i \<le>s maxTools b then
        (case Send env w systemPrompt history of
           (Inl err, w1) \<Rightarrow>
             Some (Return ([], Some (APIError err)), trace @ [Sent history (Inl err)], w1)
         | (Inr resp, w1) \<Rightarrow>
             if resp_Done resp
             then Some (Return (resp_Text resp, None), trace @ [Sent history (Inr resp)], w1)
             else
               (let assistantMsg = \<lparr>Role = ''assistant'', Text = resp_Text resp,
                                     ToolCalls = resp_ToolCalls resp, ToolResults = []\<rparr>;
                    history1 = history @ [assistantMsg]
                in case executeTools env (executor b) (resp_ToolCalls resp) []
                          (trace @ [Sent history (Inr resp)]) w1 of
                     (Panic, trace1, w2) \<Rightarrow> Some (Panic, trace1, w2)
                   | (Return results, trace1, w2) \<Rightarrow>
                       ask_loop env b systemPrompt (i + 1)
                         (history1 @ [\<lparr>Role = ''user'', Text = [], ToolCalls = [],
                                        ToolResults = results\<rparr>])
                         trace1 w2))
      else Some (Return (carried_away_text, None), trace, w))"

text \<open>\<^verbatim>\<open>Ask\<close> at clock reading \<open>now\<close>: the reply, the events, the world and the limiter
  afterwards.\<close>

definition Ask ::
  "'s Env \<Rightarrow> time \<Rightarrow> string \<Rightarrow> 'w::len word Brain \<Rightarrow> 's
     \<Rightarrow> ((string \<times> ask_error option) outcome \<times> event list \<times> 's \<times> 'w word Brain) option" where
  "Ask env now userMessage b w =
     (case rateAllow now b of
        (False, b1) \<Rightarrow> Some (Return (rate_limited_text, None), [], w, b1)
      | (True, b1) \<Rightarrow>
          (let systemPrompt = buildSystemPrompt env w;
               history = [\<lparr>Role = ''user'', Text = userMessage, ToolCalls = [],
                           ToolResults = []\<rparr>]
           in map_option (\<lambda>(out, trace, w1). (out, trace, w1, b1))
                (ask_loop env b1 systemPrompt 0 history [] w)))"

section \<open>Persistence (Save and Load)\<close>

text \<open>
  The files: a path holds nothing, a file with its contents, or an entry that cannot be
  read or replaced (a directory, a file without permission). \<^verbatim>\<open>os.ReadFile\<close>,
  \<^verbatim>\<open>os.WriteFile\<close> and \<^verbatim>\<open>os.Rename\<close> are modelled on it from their documentation. The
  contents have an abstract type \<open>'d\<close>.
\<close>

datatype 'd node = File 'd | Locked

type_synonym 'd files = "string \<Rightarrow> 'd node option"

datatype os_error = ErrNotExist | ErrPermission

definition ReadFile :: "'d files \<Rightarrow> string \<Rightarrow> os_error + 'd" where
  "ReadFile fs path =
     (case fs path of
        None \<Rightarrow> Inl ErrNotExist
      | Some Locked \<Rightarrow> Inl ErrPermission
      | Some (File d) \<Rightarrow> Inr d)"

definition WriteFile :: "'d files \<Rightarrow> string \<Rightarrow> 'd \<Rightarrow> os_error option \<times> 'd files" where
  "WriteFile fs path d =
     (case fs path of
        Some Locked \<Rightarrow> (Some ErrPermission, fs)
      | _ \<Rightarrow> (None, fs(path \<mapsto> File d)))"

definition Rename :: "'d files \<Rightarrow> string \<Rightarrow> string \<Rightarrow> os_error option \<times> 'd files" where
  "Rename fs old new =
     (case fs old of
        None \<Rightarrow> (Some ErrNotExist, fs)
      | Some n \<Rightarrow>
          (case fs new of
             Some Locked \<Rightarrow> (Some ErrPermission, fs)
           | _ \<Rightarrow> (None, (fs(old := None))(new \<mapsto> n))))"

definition IsNotExist :: "os_error \<Rightarrow> bool" where
  "IsNotExist e = (e = ErrNotExist)"

text \<open>
  \<^verbatim>\<open>json.MarshalIndent\<close> of a state and \<^verbatim>\<open>json.Unmarshal\<close> into a zero state belong
  to the standard library; they are the two functions of a codec. Every field of the
  record carries a \<^verbatim>\<open>json\<close> tag, the mutex is unexported and is not written.
\<close>

record 'd Codec =
  Marshal :: "PetState \<Rightarrow> string + 'd"
  Unmarshal :: "'d \<Rightarrow> string + PetState"

datatype state_error =
    MarshalState string
  | WriteTmpState os_error
  | RenameState os_error
  | ReadState os_error
  | UnmarshalState string

definition Save :: "'d Codec \<Rightarrow> string \<Rightarrow> PetState \<Rightarrow> 'd files \<Rightarrow> state_error option \<times> 'd files" where
  "Save c path s fs =
     (case Marshal c s of
        Inl err \<Rightarrow> (Some (MarshalState err), fs)
      | Inr data \<Rightarrow>
          (let tmp = path @ ''.tmp'' in
           case WriteFile fs tmp data of
             (Some err, fs1) \<Rightarrow> (Some (WriteTmpState err), fs1)
           | (None, fs1) \<Rightarrow>
               (case Rename fs1 tmp path of
                  (Some err, fs2) \<Rightarrow> (Some (RenameState err), fs2)
                | (None, fs2) \<Rightarrow> (None, fs2))))"

definition Load :: "'d Codec \<Rightarrow> string \<Rightarrow> 'd files \<Rightarrow> state_error + PetState" where
  "Load c path fs =
     (case ReadFile fs path of
        Inl err \<Rightarrow> if IsNotExist err then Inr zeroPetState else Inl (ReadState err)
      | Inr data \<Rightarrow>
          (case Unmarshal c data of
             Inl err \<Rightarrow> Inl (UnmarshalState err)
           | Inr state \<Rightarrow> Inr state))"

section \<open>The specification's wording, for comparison with the code\<close>

text \<open>A priority cascade as the specification words it: a list of rules, each a condition
  and its mood, read in order; the first rule whose condition holds decides, and if none
  holds the default does.\<close>

fun first_match :: "(('a \<Rightarrow> bool) \<times> 'b) list \<Rightarrow> 'b \<Rightarrow> 'a \<Rightarrow> 'b" where
  "first_match [] d s = d"
| "first_match ((p, m) # rs) d s = (if p s then m else first_match rs d s)"

definition mood_rules :: "((Snapshot \<Rightarrow> bool) \<times> string) list" where
  "mood_rules =
     [(\<lambda>s. \<not> IsAlive s, ''dead''),
      (\<lambda>s. MemPercent s > 90, ''sick''),
      (\<lambda>s. TempC s > 70, ''anxious''),
      (\<lambda>s. Energy s < 20, ''sleepy''),
      (\<lambda>s. Hunger s > 70, ''hungry''),
      (\<lambda>s. Happiness s < 30, ''bored''),
      (\<lambda>s. Happiness s > 70 \<and> Hunger s < 40 \<and> Energy s > 40, ''happy'')]"

section \<open>Concrete inputs\<close>

definition hungry_snapshot :: Snapshot where
  "hungry_snapshot =
     \<lparr>Name = ''Pip'', SpeciesID = ''octopus'',
      Hunger = 80, Happiness = 20, Energy = 50, Cleanliness = 90, Bond = 10,
      BornAt = 0, LastInteraction = 0, LastFed = 0, IsAlive = True,
      CPUPercent = 80, MemPercent = 50, DiskPercent = 10, TempC = 50, UptimeDays = 25 / 7,
      Mood = [], AgeDays = 0\<rparr>"

text \<open>The bond gain as the specification words it: +2 below 50, +1 between 50 and 80,
  +0.5 above 80.\<close>

definition claimed_gain :: "real \<Rightarrow> real" where
  "claimed_gain b = (if b < 50 then 2 else if b \<le> 80 then 1 else 1 / 2)"

text \<open>The bond gain with the thresholds of the code: +2 up to and including 50, +1 above
  50 up to and including 80, +0.5 above 80.\<close>

definition bond_gain :: "real \<Rightarrow> real" where
  "bond_gain b = (if b \<le> 50 then 2 else if b \<le> 80 then 1 else 1 / 2)"

text \<open>A sequence of \<^verbatim>\<open>ApplySystemStats\<close> calls, each with its five arguments and its clock
  reading.\<close>

fun apply_stats_calls ::
  "PetState \<Rightarrow> (real \<times> real \<times> real \<times> real \<times> real \<times> time) list \<Rightarrow> PetState" where
  "apply_stats_calls s [] = s"
| "apply_stats_calls s ((cpu, mem, disk, tempC, up, t) # cs) =
     apply_stats_calls (ApplySystemStats cpu mem disk tempC up t s) cs"

text \<open>A fresh pet after twenty interactions, and a fresh pet after one sample of a loaded
  host that has been up for seven days.\<close>

definition after_twenty_touches :: PetState where
  "after_twenty_touches =
     last (states_after (NewPetState ''Pip'' ''octopus'' 0)
             (replicate 20 (CallTouchInteraction 1)))"

definition worn_out :: PetState where
  "worn_out = ApplySystemStats 96 96 10 40 7 1 (NewPetState ''Pip'' ''octopus'' 0)"

text \<open>The codec gives back the state it encoded: decoding the bytes that \<open>Marshal\<close>
  produced for \<open>s\<close> yields \<open>s\<close> (nothing is asked when \<open>Marshal\<close> fails).\<close>

definition decodes_back :: "'d Codec \<Rightarrow> PetState \<Rightarrow> bool" where
  "decodes_back c s =
     (case Marshal c s of Inl err \<Rightarrow> True | Inr data \<Rightarrow> Unmarshal c data = Inr s)"

text \<open>Two codecs and an empty directory, as concrete inputs: one codec stores the record
  as it is, the other fails both ways.\<close>

definition plain_codec :: "PetState Codec" where
  "plain_codec = \<lparr>Marshal = Inr, Unmarshal = Inr\<rparr>"

definition failing_codec :: "string Codec" where
  "failing_codec =
     \<lparr>Marshal = (\<lambda>s. Inl ''unsupported value''),
      Unmarshal = (\<lambda>d. Inl ''unexpected end of JSON input'')\<rparr>"

definition no_files :: "'d files" where
  "no_files = (\<lambda>p. None)"

text \<open>A command contains a pattern case-insensitively, in the specification's words: some
  substring of the command equals the pattern up to the case of its letters.\<close>

definition contains_ignoring_case :: "string \<Rightarrow> string \<Rightarrow> bool" where
  "contains_ignoring_case command pattern =
     (\<exists>before part after. command = before @ part @ after \<and> ToLower part = ToLower pattern)"

text \<open>A world that only counts the subprocesses started, and the executor of the default
  configuration (10 seconds, 10240 bytes).\<close>

definition counting_spawn :: "nat \<Rightarrow> 64 word \<Rightarrow> string \<Rightarrow> proc \<times> nat" where
  "counting_spawn n d command =
     (\<lparr>proc_out = ''ok'', proc_deadline = False, proc_err = None\<rparr>, Suc n)"

definition default_executor :: "64 word Executor" where
  "default_executor = \<lparr>timeout = 10000000000, maxOutput = 10240\<rparr>"

text \<open>The window of a limiter after the eviction that a call at \<open>now\<close> starts with: the
  entries that are after the cutoff.\<close>

definition kept :: "time \<Rightarrow> 'w::len word Brain \<Rightarrow> time list" where
  "kept now b = filter (\<lambda>t. After t (Add now (- rateDur b))) (window b)"

text \<open>A brain as \<^verbatim>\<open>New\<close> builds it (no window yet), with 5 tool iterations and 2 requests
  per 60 nanoseconds.\<close>

definition default_brain :: "64 word Brain" where
  "default_brain =
     \<lparr>maxTools = 5, executor = default_executor, window = [], rateMax = 2, rateDur = 60\<rparr>"

section \<open>Vitals stay in range\<close>

lemma clamp_in_range: "in_range (clamp v)"
  by (simp add: clamp_def in_range_def)

lemma bumpBond_vitals:
  "in_range (Hunger s) \<Longrightarrow> in_range (Happiness s) \<Longrightarrow> in_range (Energy s) \<Longrightarrow>
   in_range (Cleanliness s) \<Longrightarrow> vitals_in_range (bumpBond s)"
  by (simp add: vitals_in_range_def bumpBond_def Let_def clamp_in_range)

lemma call_vitals: "vitals_in_range s \<Longrightarrow> vitals_in_range (call m s)"
proof (cases m)
  case (CallFeed t1 t2)
  assume "vitals_in_range s"
  then show ?thesis
    unfolding CallFeed call.simps Feed_def
    by (intro bumpBond_vitals) (simp_all add: vitals_in_range_def clamp_in_range)
next
  case (CallPlay t)
  assume "vitals_in_range s"
  then show ?thesis
    unfolding CallPlay call.simps Play_def
    by (intro bumpBond_vitals) (simp_all add: vitals_in_range_def clamp_in_range)
next
  case (CallPet t)
  assume "vitals_in_range s"
  then show ?thesis
    unfolding CallPet call.simps Pet_def
    by (intro bumpBond_vitals) (simp_all add: vitals_in_range_def clamp_in_range)
next
  case (CallTouchInteraction t)
  assume "vitals_in_range s"
  then show ?thesis
    unfolding CallTouchInteraction call.simps TouchInteraction_def
    by (intro bumpBond_vitals) (simp_all add: vitals_in_range_def)
next
  case (CallApplySystemStats cpu mem disk tempC up t)
  show ?thesis
    unfolding CallApplySystemStats call.simps ApplySystemStats_def
    by (simp add: vitals_in_range_def Let_def clamp_in_range)
next
  case CallKill
  assume "vitals_in_range s"
  then show ?thesis
    unfolding CallKill by (simp add: Kill_def vitals_in_range_def)
next
  case (CallRevive t)
  show ?thesis
    unfolding CallRevive
    by (simp add: Revive_def vitals_in_range_def clamp_in_range) (simp add: in_range_def)
next
  case (CallSetIdentity n sp t)
  show ?thesis
    unfolding CallSetIdentity
    by (simp add: SetIdentity_def vitals_in_range_def in_range_def)
qed

text \<open>
  Claim C1. Starting from a state whose five vitals (hunger, happiness, energy,
  cleanliness, bond) are each in [0,100], after every call of every sequence of mutator
  calls (Feed, Play, Pet, TouchInteraction, ApplySystemStats, Kill, Revive, SetIdentity,
  with any arguments and at any clock readings) every vital is again in [0,100].
\<close>

theorem vitals_stay_in_range:
  "vitals_in_range s \<Longrightarrow> \<forall>s' \<in> set (states_after s ms). vitals_in_range s'"
proof (induction ms arbitrary: s)
  case Nil
  then show ?case by simp
next
  case (Cons m ms)
  from Cons.prems have "vitals_in_range (call m s)" by (rule call_vitals)
  with Cons.IH show ?case by simp
qed

theorem vitals_stay_in_range_witness:
  "vitals_in_range (NewPetState ''Pip'' ''octopus'' 0) \<and>
   list_all vitals_in_range
     (states_after (NewPetState ''Pip'' ''octopus'' 0)
        [CallFeed 1 2, CallPlay 3, CallApplySystemStats 96 96 10 40 (1/10) 4, CallKill,
         CallRevive 5])"
proof -
  have h: "vitals_in_range (NewPetState ''Pip'' ''octopus'' 0)"
    by (simp add: vitals_in_range_def in_range_def NewPetState_def)
  from vitals_stay_in_range [OF h,
      of "[CallFeed 1 2, CallPlay 3, CallApplySystemStats 96 96 10 40 (1/10) 4, CallKill,
           CallRevive 5]"]
  show ?thesis
    using h by (simp add: list_all_iff)
qed

section \<open>The mood cascade\<close>

text \<open>
  Claim C2. DetermineMood is the strict first-match-wins cascade of the rules not alive
  (dead), mem > 90 (sick), temp > 70 (anxious), energy < 20 (sleepy), hunger > 70 (hungry),
  happiness < 30 (bored), happiness > 70 and hunger < 40 and energy > 40 (happy), with
  content as the default. Every living snapshot with hunger 80, happiness 20, energy 50,
  mem 50 and temp 50 is hungry, and every snapshot that is not alive is dead whatever its
  other fields.
\<close>

theorem mood_cascade:
  "DetermineMood s = first_match mood_rules ''content'' s \<and>
   (IsAlive s \<and> Hunger s = 80 \<and> Happiness s = 20 \<and> Energy s = 50 \<and> MemPercent s = 50 \<and>
      TempC s = 50 \<longrightarrow> DetermineMood s = ''hungry'') \<and>
   (\<not> IsAlive s \<longrightarrow> DetermineMood s = ''dead'')"
  by (simp add: DetermineMood_def mood_rules_def)

theorem mood_cascade_witness:
  "IsAlive hungry_snapshot \<and> Hunger hungry_snapshot = 80 \<and> Happiness hungry_snapshot = 20 \<and>
   Energy hungry_snapshot = 50 \<and> MemPercent hungry_snapshot = 50 \<and> TempC hungry_snapshot = 50 \<and>
   DetermineMood hungry_snapshot = ''hungry'' \<and>
   \<not> IsAlive (hungry_snapshot\<lparr>IsAlive := False\<rparr>) \<and>
   DetermineMood (hungry_snapshot\<lparr>IsAlive := False\<rparr>) = ''dead''"
  using mood_cascade [of hungry_snapshot] mood_cascade [of "hungry_snapshot\<lparr>IsAlive := False\<rparr>"]
  by (simp add: hungry_snapshot_def mood_rules_def)

section \<open>Bond growth\<close>

lemma bumpBond_Bond: "Bond (bumpBond s) = clamp (Bond s + bond_gain (Bond s))"
  by (simp add: bumpBond_def bond_gain_def Let_def)

lemma Bond_twenty: "Bond after_twenty_touches = 50"
  by (simp add: after_twenty_touches_def eval_nat_numeral TouchInteraction_def bumpBond_def
      Let_def clamp_def NewPetState_def)

text \<open>
  Claim C8, as stated, fails: a fresh pet (bond 10) reaches bond 50 after twenty
  interactions; 50 is not below 50, it is between 50 and 80, so the claim gives +1, but the
  next interaction takes the bond to 52.
\<close>

theorem bond_gain_counterexample:
  "Bond after_twenty_touches = 50 \<and>
   Bond (TouchInteraction 2 after_twenty_touches) = 52 \<and>
   Bond (TouchInteraction 2 after_twenty_touches)
     \<noteq> min 100 (Bond after_twenty_touches + claimed_gain (Bond after_twenty_touches))"
  by (simp add: Bond_twenty TouchInteraction_def bumpBond_def Let_def clamp_def claimed_gain_def)

text \<open>
  Claim C8, amended. Every bond-bumping interaction (Feed, Play, Pet, TouchInteraction)
  sets the bond to the clamp of bond + gain, where the gain is +2 when the bond is at most
  50, +1 when it is above 50 and at most 80, and +0.5 when it is above 80; the clamp caps
  the result at 100 (and raises a negative result to 0).
\<close>

theorem bond_gain_by_thresholds:
  "Bond (Feed t1 t2 s) = clamp (Bond s + bond_gain (Bond s)) \<and>
   Bond (Play t s) = clamp (Bond s + bond_gain (Bond s)) \<and>
   Bond (Pet t s) = clamp (Bond s + bond_gain (Bond s)) \<and>
   Bond (TouchInteraction t s) = clamp (Bond s + bond_gain (Bond s)) \<and>
   bond_gain (Bond s) = (if Bond s \<le> 50 then 2 else if Bond s \<le> 80 then 1 else 1 / 2) \<and>
   clamp (Bond s + bond_gain (Bond s)) =
     (if Bond s + bond_gain (Bond s) < 0 then 0 else min 100 (Bond s + bond_gain (Bond s)))"
  by (simp add: Feed_def Play_def Pet_def TouchInteraction_def bumpBond_Bond)
     (simp add: bond_gain_def clamp_def)

section \<open>Death and revival\<close>

lemma ApplySystemStats_alive:
  "IsAlive (ApplySystemStats cpu mem disk tempC up t s) =
     (IsAlive s \<and> \<not> (clamp cpu \<ge> 95 \<and> mem \<ge> 95 \<and> clamp (100 - up * 14) \<le> 5))"
  by (simp add: ApplySystemStats_def Let_def)

lemma ApplySystemStats_fields:
  "Hunger (ApplySystemStats cpu mem disk tempC up t s) = clamp cpu"
  "MemPercent (ApplySystemStats cpu mem disk tempC up t s) = mem"
  "Energy (ApplySystemStats cpu mem disk tempC up t s) = clamp (100 - up * 14)"
  by (simp_all add: ApplySystemStats_def Let_def)

lemma dead_stays_dead: "\<not> IsAlive s \<Longrightarrow> \<not> IsAlive (apply_stats_calls s cs)"
  by (induction s cs rule: apply_stats_calls.induct) (simp_all add: ApplySystemStats_alive)

lemma scenario_keeps_alive:
  "IsAlive (apply_stats_calls s (map (\<lambda>t. (96, 96, 10, 40, 1 / 10, t)) ts)) = IsAlive s"
  by (induction ts arbitrary: s) (simp_all add: ApplySystemStats_alive clamp_def)

text \<open>
  Claim C5, as stated, fails: energy is not accumulated, each call sets it to
  100 - 14 * uptimeDays, which is 98.6 for uptimeDays = 0.1. So however often
  ApplySystemStats(96, 96, 10, 40, 0.1) is repeated on a fresh pet, at whatever clock
  readings, the pet stays alive.
\<close>

theorem repeated_stats_counterexample:
  "\<not> (\<exists>ts. \<not> IsAlive (apply_stats_calls (NewPetState ''Pip'' ''octopus'' 0)
                (map (\<lambda>t. (96, 96, 10, 40, 1 / 10, t)) ts)))"
  by (simp add: scenario_keeps_alive NewPetState_def)

text \<open>
  Claim C5, amended. A call of ApplySystemStats leaves the pet alive exactly when it was
  alive before and the triple hunger \<ge> 95, mem \<ge> 95, energy \<le> 5 does not hold after the
  metric mapping, where hunger is the clamped cpu, mem is the sampled value and energy is
  the clamp of 100 - 14 * uptimeDays. Once the pet is not alive it stays so under every
  further sequence of ApplySystemStats calls, and Revive makes it alive again. Repeating
  ApplySystemStats(96, 96, 10, 40, 0.1) never changes the alive flag.
\<close>

theorem death_trigger:
  "(let s' = ApplySystemStats cpu mem disk tempC up t s in
      IsAlive s' = (IsAlive s \<and> \<not> (Hunger s' \<ge> 95 \<and> MemPercent s' \<ge> 95 \<and> Energy s' \<le> 5)) \<and>
      Hunger s' = clamp cpu \<and> MemPercent s' = mem \<and> Energy s' = clamp (100 - up * 14)) \<and>
   (\<not> IsAlive s \<longrightarrow> \<not> IsAlive (apply_stats_calls s cs)) \<and>
   IsAlive (Revive t' s) \<and>
   IsAlive (apply_stats_calls s (map (\<lambda>t. (96, 96, 10, 40, 1 / 10, t)) ts)) = IsAlive s"
  by (simp add: Let_def ApplySystemStats_fields ApplySystemStats_alive dead_stays_dead
      scenario_keeps_alive Revive_def)

theorem death_trigger_witness:
  "\<not> IsAlive worn_out \<and> Hunger worn_out = 96 \<and> MemPercent worn_out = 96 \<and>
   Energy worn_out = 2 \<and>
   \<not> IsAlive (apply_stats_calls worn_out
               [(10, 10, 10, 40, 1 / 10, 2), (96, 96, 10, 40, 1 / 10, 3)]) \<and>
   IsAlive (Revive 4 worn_out)"
  using death_trigger [of 96 96 10 40 7 1 "NewPetState ''Pip'' ''octopus'' 0" "[]" 4 "[]"]
    death_trigger [of 96 96 10 40 7 4 worn_out
      "[(10, 10, 10, 40, 1 / 10, 2), (96, 96, 10, 40, 1 / 10, 3)]" 4 "[]"]
  by (simp add: worn_out_def Let_def clamp_def NewPetState_def)

section \<open>Save and Load\<close>

lemma Save_ok:
  assumes "Save c path s fs = (None, fs')"
  shows "\<exists>data. Marshal c s = Inr data \<and> fs' path = Some (File data) \<and>
           fs' (path @ ''.tmp'') = None"
  using assms
  by (auto simp: Save_def WriteFile_def Rename_def Let_def
      split: sum.splits option.splits node.splits prod.splits if_splits)

text \<open>
  Claim C7. When Save(path) returns no error, on a codec that decodes back what it encoded
  for the state, Load(path) on the resulting files returns a state equal to the saved one
  in every persisted field (name, species, the five vitals, the three timestamps, the alive
  flag, the five system metrics), so its Snapshot equals the Snapshot of the saved state
  taken at the same clock reading; the mood and the age of that Snapshot are recomputed
  from the loaded fields and the clock, they are no fields of the stored record.
\<close>

theorem save_load_roundtrip:
  assumes "Save c path s fs = (None, fs')" and "decodes_back c s"
  shows "\<exists>s'. Load c path fs' = Inr s' \<and> s' = s \<and> Snapshot now s' = Snapshot now s \<and>
           Mood (Snapshot now s') = DetermineMood (Snapshot now s') \<and>
           AgeDays (Snapshot now s') = Hours (Since now (BornAt s')) / 24"
proof -
  from Save_ok [OF assms(1)] obtain data where
    m: "Marshal c s = Inr data" and f: "fs' path = Some (File data)" by blast
  from assms(2) m have "Unmarshal c data = Inr s" by (simp add: decodes_back_def)
  with f have "Load c path fs' = Inr s" by (simp add: Load_def ReadFile_def)
  moreover have "Mood (Snapshot now s) = DetermineMood (Snapshot now s)"
    by (simp add: Snapshot_def Let_def DetermineMood_def PetState.extend_def)
  moreover have "AgeDays (Snapshot now s) = Hours (Since now (BornAt s)) / 24"
    by (simp add: Snapshot_def Let_def PetState.extend_def)
  ultimately show ?thesis by simp
qed

theorem save_load_roundtrip_witness:
  "Save plain_codec ''state.json'' worn_out no_files
     = (None, no_files(''state.json'' \<mapsto> File worn_out)) \<and>
   decodes_back plain_codec worn_out \<and>
   Load plain_codec ''state.json'' (no_files(''state.json'' \<mapsto> File worn_out)) = Inr worn_out"
proof -
  have a: "Save plain_codec ''state.json'' worn_out no_files
     = (None, no_files(''state.json'' \<mapsto> File worn_out))"
    by (simp add: Save_def plain_codec_def WriteFile_def Rename_def no_files_def Let_def
        fun_eq_iff)
  have b: "decodes_back plain_codec worn_out"
    by (simp add: decodes_back_def plain_codec_def)
  from save_load_roundtrip [OF a b, of 5] a b show ?thesis by simp
qed

text \<open>
  Claim C10. Load on a path that holds no file returns no error and the zero-valued state:
  name and species empty (the pet is not onboarded), the five vitals 0, not alive; this is
  not a state that NewPetState builds. Any other failure of the read, and any failure of
  the decoding, returns an error and no state.
\<close>

theorem load_missing_or_broken:
  "(fs path = None \<longrightarrow> Load c path fs = Inr zeroPetState) \<and>
   Name zeroPetState = [] \<and> SpeciesID zeroPetState = [] \<and> \<not> IsOnboarded zeroPetState \<and>
   Hunger zeroPetState = 0 \<and> Happiness zeroPetState = 0 \<and> Energy zeroPetState = 0 \<and>
   Cleanliness zeroPetState = 0 \<and> Bond zeroPetState = 0 \<and> \<not> IsAlive zeroPetState \<and>
   zeroPetState \<noteq> NewPetState name speciesID now \<and>
   (ReadFile fs path = Inl e \<and> \<not> IsNotExist e \<longrightarrow> Load c path fs = Inl (ReadState e)) \<and>
   (ReadFile fs path = Inr data \<and> Unmarshal c data = Inl err
      \<longrightarrow> Load c path fs = Inl (UnmarshalState err))"
  by (simp add: Load_def ReadFile_def IsNotExist_def zeroPetState_def NewPetState_def
      IsOnboarded_def)

theorem load_missing_or_broken_witness:
  "(no_files :: string files) ''state.json'' = None \<and>
   Load failing_codec ''state.json'' no_files = Inr zeroPetState \<and>
   ReadFile (no_files(''state.json'' \<mapsto> Locked) :: string files) ''state.json''
     = Inl ErrPermission \<and>
   \<not> IsNotExist ErrPermission \<and>
   Load failing_codec ''state.json'' (no_files(''state.json'' \<mapsto> Locked))
     = Inl (ReadState ErrPermission) \<and>
   ReadFile (no_files(''state.json'' \<mapsto> File ''{'')) ''state.json'' = Inr ''{'' \<and>
   Unmarshal failing_codec ''{'' = Inl ''unexpected end of JSON input'' \<and>
   Load failing_codec ''state.json'' (no_files(''state.json'' \<mapsto> File ''{''))
     = Inl (UnmarshalState ''unexpected end of JSON input'')"
  using load_missing_or_broken [of no_files "''state.json''" failing_codec]
    load_missing_or_broken [of "no_files(''state.json'' \<mapsto> Locked)" "''state.json''"
      failing_codec _ _ _ ErrPermission]
    load_missing_or_broken [of "no_files(''state.json'' \<mapsto> File ''{'')" "''state.json''"
      failing_codec _ _ _ _ "''{''" "''unexpected end of JSON input''"]
  by (simp add: no_files_def ReadFile_def IsNotExist_def failing_codec_def)

section \<open>The deny-list of the sandbox\<close>

lemma Contains_iff: "Contains s sub = (\<exists>ps ss. s = ps @ sub @ ss)"
proof (induction s)
  case Nil
  then show ?case by auto
next
  case (Cons c s)
  show ?case
  proof
    assume "Contains (c # s) sub"
    then consider "prefix sub (c # s)" | "Contains s sub" by auto
    then show "\<exists>ps ss. c # s = ps @ sub @ ss"
    proof cases
      case 1
      then obtain ss where "c # s = sub @ ss" by (auto simp: prefix_def)
      then have "c # s = [] @ sub @ ss" by simp
      then show ?thesis by blast
    next
      case 2
      with Cons.IH obtain ps ss where "s = ps @ sub @ ss" by blast
      then have "c # s = (c # ps) @ sub @ ss" by simp
      then show ?thesis by blast
    qed
  next
    assume "\<exists>ps ss. c # s = ps @ sub @ ss"
    then obtain ps ss where e: "c # s = ps @ sub @ ss" by blast
    show "Contains (c # s) sub"
    proof (cases ps)
      case Nil
      with e have "prefix sub (c # s)" by (simp add: prefix_def)
      then show ?thesis by simp
    next
      case (Cons a ps')
      with e have "s = ps' @ sub @ ss" by simp
      with Cons.IH have "Contains s sub" by blast
      then show ?thesis by simp
    qed
  qed
qed

lemma ToLower_append: "ToLower (xs @ ys) = ToLower xs @ ToLower ys"
  by (simp add: ToLower_def)

lemma contains_ignoring_case_Contains:
  "contains_ignoring_case command pattern \<Longrightarrow> Contains (ToLower command) (ToLower pattern)"
  unfolding contains_ignoring_case_def Contains_iff
  by (metis ToLower_append)

lemma checkPatterns_hit:
  "pattern \<in> set ps \<Longrightarrow> Contains lower (ToLower pattern) \<Longrightarrow> checkPatterns lower ps \<in> set ps"
  by (induction ps) auto

lemma blockedPatterns_nonempty: "[] \<notin> set blockedPatterns"
  by (simp add: blockedPatterns_def)

lemma checkBlocked_hit:
  assumes "pattern \<in> set blockedPatterns" and "contains_ignoring_case command pattern"
  shows "checkBlocked command \<in> set blockedPatterns" and "checkBlocked command \<noteq> []"
proof -
  show "checkBlocked command \<in> set blockedPatterns"
    using assms by (simp add: checkBlocked_def checkPatterns_hit contains_ignoring_case_Contains)
  with blockedPatterns_nonempty show "checkBlocked command \<noteq> []" by metis
qed

lemma checkBlocked_rm: "checkBlocked (before @ ''rm -rf /'' @ after) = ''rm -rf /''"
proof -
  have "Contains (ToLower (before @ ''rm -rf /'' @ after)) (ToLower ''rm -rf /'')"
    unfolding Contains_iff ToLower_append by blast
  then show ?thesis
    unfolding checkBlocked_def Let_def blockedPatterns_def
    by (simp only: checkPatterns.simps if_True)
qed

text \<open>
  Claim C6. For every command that contains, up to the case of its letters, a pattern of
  the deny-list, Run returns the empty output and the blocked-pattern error, which names a
  pattern of the list; it does so whatever the subprocess would do and leaves the world as
  it was, so the check comes before any execution and the spawning branch is not reached.
  In particular every command that contains \<^verbatim>\<open>rm -rf /\<close> is refused with that pattern.
\<close>

theorem blocked_never_spawns:
  "(pattern \<in> set blockedPatterns \<and> contains_ignoring_case command pattern \<longrightarrow>
      checkBlocked command \<in> set blockedPatterns \<and> checkBlocked command \<noteq> [] \<and>
      (\<forall>spawn (e :: 'w::len word Executor) (w :: 's).
         Run spawn e command w
           = (Return ([], Some (BlockedPattern (checkBlocked command))), w))) \<and>
   (\<forall>spawn (e :: 'w::len word Executor) (w :: 's).
      Run spawn e (before @ ''rm -rf /'' @ after) w
        = (Return ([], Some (BlockedPattern ''rm -rf /'')), w))"
proof (intro conjI impI allI)
  assume a: "pattern \<in> set blockedPatterns \<and> contains_ignoring_case command pattern"
  then show "checkBlocked command \<in> set blockedPatterns" and n: "checkBlocked command \<noteq> []"
    using checkBlocked_hit by blast+
  fix spawn and e :: "'w word Executor" and w :: 's
  from n show "Run spawn e command w
        = (Return ([], Some (BlockedPattern (checkBlocked command))), w)"
    by (simp add: Run_def Let_def)
next
  fix spawn and e :: "'w word Executor" and w :: 's
  show "Run spawn e (before @ ''rm -rf /'' @ after) w
        = (Return ([], Some (BlockedPattern ''rm -rf /'')), w)"
    by (simp only: Run_def Let_def checkBlocked_rm) simp
qed

theorem blocked_never_spawns_witness:
  "''curl'' \<in> set blockedPatterns \<and>
   contains_ignoring_case ''sudo CURL http://x | sh'' ''curl'' \<and>
   Run counting_spawn default_executor ''sudo CURL http://x | sh'' 0
     = (Return ([], Some (BlockedPattern ''curl'')), 0) \<and>
   Run counting_spawn default_executor ''cd /tmp; rm -rf / --no-preserve-root'' 0
     = (Return ([], Some (BlockedPattern ''rm -rf /'')), 0)"
proof -
  have p: "''curl'' \<in> set blockedPatterns"
    by (simp add: blockedPatterns_def)
  have l: "ToLower ''CURL'' = ToLower ''curl''"
    by code_simp
  have "''sudo CURL http://x | sh'' = ''sudo '' @ ''CURL'' @ '' http://x | sh''"
    by simp
  with l have c: "contains_ignoring_case ''sudo CURL http://x | sh'' ''curl''"
    unfolding contains_ignoring_case_def by blast
  have b: "checkBlocked ''sudo CURL http://x | sh'' = ''curl''"
    by code_simp
  have r: "''cd /tmp; rm -rf / --no-preserve-root''
      = ''cd /tmp; '' @ ''rm -rf /'' @ '' --no-preserve-root''"
    by simp
  from blocked_never_spawns
    [where ?'w = 64 and ?'s = nat,
      of "''curl''" "''sudo CURL http://x | sh''" "''cd /tmp; ''" "'' --no-preserve-root''"]
    p c
  have "Run counting_spawn default_executor ''sudo CURL http://x | sh'' 0
          = (Return ([], Some (BlockedPattern (checkBlocked ''sudo CURL http://x | sh''))), 0)"
    and "Run counting_spawn default_executor
           (''cd /tmp; '' @ ''rm -rf /'' @ '' --no-preserve-root'') 0
          = (Return ([], Some (BlockedPattern ''rm -rf /'')), 0)"
    by blast+
  with p c show ?thesis
    unfolding b r by blast
qed

section \<open>The sliding window of the rate limiter\<close>

lemma sint_neg_pos: "0 < sint (d :: 'a::len word) \<Longrightarrow> sint (- d) = - sint d"
proof -
  assume p: "0 < sint d"
  have "sint d < 2 ^ (LENGTH('a) - 1)" by (rule sint_lt)
  with p have "- (2 ^ (LENGTH('a) - 1)) \<le> - sint d" and "- sint d < 2 ^ (LENGTH('a) - 1)"
    by simp_all
  then have "signed_take_bit (LENGTH('a) - 1) (- sint d) = - sint d"
    by (rule signed_take_bit_int_eq_self)
  then show ?thesis by (simp add: sint_word_ariths)
qed

lemma rateAllow_step:
  "fst (rateAllow now b) = (int (length (kept now b)) < sint (rateMax b))"
  "window (snd (rateAllow now b)) =
     (if fst (rateAllow now b) then kept now b @ [now] else kept now b)"
  "rateMax (snd (rateAllow now b)) = rateMax b"
  "rateDur (snd (rateAllow now b)) = rateDur b"
  by (auto simp: rateAllow_def kept_def Let_def)

lemma accepted_Nil: "accepted b [] = []"
  by (simp add: accepted_def)

lemma accepted_Cons:
  "accepted b (t # ts) =
     (if fst (rateAllow t b) then t # accepted (snd (rateAllow t b)) ts
      else accepted (snd (rateAllow t b)) ts)"
  by (simp add: accepted_def split: prod.splits)

lemma accepted_subset: "set (accepted b ts) \<subseteq> set ts"
  by (induction ts arbitrary: b) (auto simp: accepted_Cons accepted_Nil)

lemma kept_pos:
  "0 < sint (rateDur b) \<Longrightarrow> kept now b = filter (\<lambda>t. now - sint (rateDur b) < t) (window b)"
  by (simp add: kept_def After_def Add_def sint_neg_pos)

lemma filter_le_length: "length (filter P (filter Q xs)) \<le> length (filter P xs)"
  by (induction xs) auto

lemma filter_same:
  "(\<And>x. x \<in> set xs \<Longrightarrow> P x \<Longrightarrow> Q x) \<Longrightarrow> filter P (filter Q xs) = filter P xs"
  by (induction xs) auto

lemma filter_none: "(\<And>x. x \<in> set xs \<Longrightarrow> \<not> P x) \<Longrightarrow> filter P xs = []"
  by (induction xs) auto

lemma window_bound:
  fixes b :: "'w::len word Brain"
  assumes "0 < sint (rateDur b)"
    and "sorted ts"
    and "\<forall>x \<in> set (window b). \<forall>t \<in> set ts. x \<le> t"
    and "\<forall>T. int (length (filter (in_trailing (sint (rateDur b)) T) (window b))) \<le> sint (rateMax b)"
  shows "int (length (filter (in_trailing (sint (rateDur b)) T) (window b @ accepted b ts)))
           \<le> sint (rateMax b)"
  using assms
proof (induction ts arbitrary: b T)
  case Nil
  then show ?case by (simp add: accepted_Nil)
next
  case (Cons t ts)
  let ?D = "sint (rateDur b)"
  let ?N = "sint (rateMax b)"
  let ?b1 = "snd (rateAllow t b)"
  let ?v = "kept t b"
  have v: "?v = filter (\<lambda>x. t - ?D < x) (window b)"
    using Cons.prems(1) by (rule kept_pos)
  have D1: "sint (rateDur ?b1) = ?D" and N1: "sint (rateMax ?b1) = ?N"
    by (simp_all add: rateAllow_step)
  have sorted_ts: "sorted ts" and t_le: "\<forall>u \<in> set ts. t \<le> u"
    using Cons.prems(2) by simp_all
  have w_le_t: "\<forall>x \<in> set (window b). x \<le> t"
    using Cons.prems(3) by simp
  have w1_le: "\<forall>x \<in> set (window ?b1). \<forall>u \<in> set ts. x \<le> u"
  proof (intro ballI)
    fix x u assume "x \<in> set (window ?b1)" and u: "u \<in> set ts"
    then have "x = t \<or> x \<in> set (window b)"
      by (auto simp: rateAllow_step v split: if_splits)
    with w_le_t have "x \<le> t" by auto
    with t_le u show "x \<le> u" by fastforce
  qed
  have w1_bound: "\<forall>T. int (length (filter (in_trailing ?D T) (window ?b1))) \<le> ?N"
  proof
    fix T
    show "int (length (filter (in_trailing ?D T) (window ?b1))) \<le> ?N"
    proof (cases "fst (rateAllow t b)")
      case True
      then have "int (length ?v) < ?N" by (simp add: rateAllow_step)
      moreover have "length (filter (in_trailing ?D T) (?v @ [t])) \<le> length (?v @ [t])"
        by (rule length_filter_le)
      ultimately show ?thesis using True by (simp add: rateAllow_step)
    next
      case False
      have "length (filter (in_trailing ?D T) ?v) \<le> length (filter (in_trailing ?D T) (window b))"
        unfolding v by (rule filter_le_length)
      with Cons.prems(4) [rule_format, of T] False show ?thesis
        by (simp add: rateAllow_step)
    qed
  qed
  have IH: "int (length (filter (in_trailing ?D T) (window ?b1 @ accepted ?b1 ts))) \<le> ?N"
    using Cons.IH [of ?b1 T] Cons.prems(1) sorted_ts w1_le w1_bound
    by (simp add: D1 N1 rateAllow_step)
  show ?case
  proof (cases "t \<le> T")
    case True
    have same: "filter (in_trailing ?D T) ?v = filter (in_trailing ?D T) (window b)"
      unfolding v using True by (intro filter_same) (simp add: in_trailing_def)
    have "filter (in_trailing ?D T) (window b @ accepted b (t # ts))
            = filter (in_trailing ?D T) (window ?b1 @ accepted ?b1 ts)"
      using same by (simp add: accepted_Cons rateAllow_step)
    with IH show ?thesis by (simp only:)
  next
    case False
    have "\<And>x. x \<in> set (accepted b (t # ts)) \<Longrightarrow> \<not> in_trailing ?D T x"
    proof -
      fix x assume "x \<in> set (accepted b (t # ts))"
      with accepted_subset have "x \<in> set (t # ts)" by blast
      with t_le have "t \<le> x" by auto
      with False show "\<not> in_trailing ?D T x" by (simp add: in_trailing_def)
    qed
    then have "filter (in_trailing ?D T) (accepted b (t # ts)) = []"
      by (rule filter_none)
    with Cons.prems(4) [rule_format, of T] show ?thesis by simp
  qed
qed


lemma never_accepts:
  "sint (rateMax b) \<le> 0 \<Longrightarrow> accepted b ts = []"
proof (induction ts arbitrary: b)
  case Nil
  then show ?case by (simp add: accepted_Nil)
next
  case (Cons t ts)
  from Cons.prems have "\<not> fst (rateAllow t b)" by (simp add: rateAllow_step)
  moreover from Cons.prems have "sint (rateMax (snd (rateAllow t b))) \<le> 0"
    by (simp add: rateAllow_step)
  ultimately show ?case using Cons.IH by (simp add: accepted_Cons)
qed

text \<open>
  Claim C3. A limiter starts with an empty window; its calls read the clock under the
  mutex, so the readings \<open>ts\<close> do not decrease along the calls. With maxRequests N and
  window D, for every instant T, at most N of the calls that returned true (none when N
  is negative) have their reading in the trailing interval of length D that ends at T,
  that is in (T - D, T]. Each call first evicts: it keeps the entries after the cutoff
  now - D; it is allowed exactly when fewer than N entries are kept; a denied call leaves
  the kept entries and records nothing, an allowed call appends its reading.
\<close>

theorem sliding_window_bound:
  fixes b :: "'w::len word Brain"
  assumes "window b = []" and "sorted ts"
  shows "length (filter (in_trailing (sint (rateDur b)) T) (accepted b ts))
           \<le> nat (sint (rateMax b)) \<and>
         fst (rateAllow now c) = (int (length (kept now c)) < sint (rateMax c)) \<and>
         window (snd (rateAllow now c))
           = (if fst (rateAllow now c) then kept now c @ [now] else kept now c) \<and>
         kept now c = filter (\<lambda>t. After t (Add now (- rateDur c))) (window c) \<and>
         (0 < sint (rateDur c) \<longrightarrow>
            kept now c = filter (\<lambda>t. now - sint (rateDur c) < t) (window c))"
proof -
  have "length (filter (in_trailing (sint (rateDur b)) T) (accepted b ts))
           \<le> nat (sint (rateMax b))"
  proof (cases "0 < sint (rateDur b) \<and> 0 < sint (rateMax b)")
    case True
    with assms window_bound [of b ts T]
    have "int (length (filter (in_trailing (sint (rateDur b)) T) (accepted b ts)))
            \<le> sint (rateMax b)"
      by simp
    then show ?thesis by simp
  next
    case False
    then consider "sint (rateDur b) \<le> 0" | "sint (rateMax b) \<le> 0" by linarith
    then show ?thesis
    proof cases
      case 1
      then have "filter (in_trailing (sint (rateDur b)) T) (accepted b ts) = []"
        by (intro filter_none) (simp add: in_trailing_def)
      then show ?thesis by simp
    next
      case 2
      then show ?thesis by (simp add: never_accepts)
    qed
  qed
  then show ?thesis
    by (simp add: rateAllow_step kept_pos) (simp add: kept_def)
qed

theorem sliding_window_bound_witness:
  "window default_brain = [] \<and> sorted [0, 10, 20, 70, 75 :: int] \<and>
   accepted default_brain [0, 10, 20, 70, 75] = [0, 10, 70, 75] \<and>
   length (filter (in_trailing (sint (rateDur default_brain)) 75)
             (accepted default_brain [0, 10, 20, 70, 75]))
     \<le> nat (sint (rateMax default_brain)) \<and>
   0 < sint (rateDur (default_brain\<lparr>window := [0, 10]\<rparr>)) \<and>
   \<not> fst (rateAllow 20 (default_brain\<lparr>window := [0, 10]\<rparr>)) \<and>
   window (snd (rateAllow 20 (default_brain\<lparr>window := [0, 10]\<rparr>))) = [0, 10]"
proof -
  have w: "window default_brain = []" by (simp add: default_brain_def)
  have s: "sorted [0, 10, 20, 70, 75 :: int]" by simp
  have a: "accepted default_brain [0, 10, 20, 70, 75] = [0, 10, 70, 75]" by code_simp
  have d: "0 < sint (rateDur (default_brain\<lparr>window := [0, 10]\<rparr>))"
    by (simp add: default_brain_def)
  have k: "filter (\<lambda>t. 20 - sint (rateDur (default_brain\<lparr>window := [0, 10]\<rparr>)) < t)
             (window (default_brain\<lparr>window := [0, 10]\<rparr>)) = [0, 10]"
    by (simp add: default_brain_def)
  have n: "sint (rateMax (default_brain\<lparr>window := [0, 10]\<rparr>)) = 2"
    by (simp add: default_brain_def)
  from sliding_window_bound [OF w s, of 75 20 "default_brain\<lparr>window := [0, 10]\<rparr>"] d
  have "length (filter (in_trailing (sint (rateDur default_brain)) 75)
             (accepted default_brain [0, 10, 20, 70, 75]))
          \<le> nat (sint (rateMax default_brain))"
    and "kept 20 (default_brain\<lparr>window := [0, 10]\<rparr>) = [0, 10]"
    and "fst (rateAllow 20 (default_brain\<lparr>window := [0, 10]\<rparr>))
           = (int (length (kept 20 (default_brain\<lparr>window := [0, 10]\<rparr>))) < 2)"
    and "window (snd (rateAllow 20 (default_brain\<lparr>window := [0, 10]\<rparr>)))
           = (if fst (rateAllow 20 (default_brain\<lparr>window := [0, 10]\<rparr>))
              then kept 20 (default_brain\<lparr>window := [0, 10]\<rparr>) @ [20]
              else kept 20 (default_brain\<lparr>window := [0, 10]\<rparr>))"
    unfolding k n by blast+
  with w s a d show ?thesis by simp
qed

end
